theory Spec2Isabelle
  imports Complex_Main
begin

section \<open>The option record (inc/genericoption.h)\<close>

text \<open>
  The class template \<open>genericOption<Real>\<close> is a plain record of contract parameters,
  result fields and the option type. \<open>Real\<close> (float or double in the source) is taken
  as the exact reals: every statement below is about the arithmetic the code writes
  down, not about rounding.
\<close>

datatype CallPut = Call | Put

record genericOption =
  spot :: real
  strike :: real
  r :: real
  sigma :: real
  tenor :: real
  dt :: real
  barrier :: real
  golden :: real
  valueAsian :: real
  valuePlainVanilla :: real
  valuePlainVanillaCPU :: real
  valueKnockout :: real
  valueKnockin :: real
  valueLookback :: real
  valueALK :: real
  type :: CallPut

text \<open>
  A device array of \<open>Real\<close> is a store from element offsets to values. The path matrix
  is column-major by time step: the entry of path \<open>i\<close> at time step \<open>t\<close> lives at
  offset \<open>i + t * numSims\<close>.
\<close>

type_synonym buffer = "nat \<Rightarrow> real"

section \<open>The grid-stride loop\<close>

text \<open>
  Every kernel runs \<open>for (i = tid; i < numSims; i += step)\<close> with
  \<open>step = gridDim.x * blockDim.x\<close>. The loop body is a parameter. A thread only exists
  when \<open>step\<close> is positive, which the guard records. The counter \<open>i\<close> is an
  \<open>unsigned int\<close> in the source and a natural number in \<open>grid_stride\<close>: \<open>grid_stride\<close> is
  the loop on the launches with \<open>numSims + step \<le> 2^32\<close>, where \<open>i += step\<close> cannot wrap.
\<close>

function grid_stride :: "(nat \<Rightarrow> 'a \<Rightarrow> 'a) \<Rightarrow> nat \<Rightarrow> nat \<Rightarrow> nat \<Rightarrow> 'a \<Rightarrow> 'a" where
  "grid_stride body step numSims i acc =
     (if i < numSims \<and> 0 < step
      then grid_stride body step numSims (i + step) (body i acc)
      else acc)"
  by pat_completeness auto
termination
  by (relation "measure (\<lambda>(body, step, numSims, i, acc). numSims - i)") auto

declare grid_stride.simps [simp del]

text \<open>
  The same loop with the 32-bit counter written out: \<open>i += step\<close> is taken modulo \<open>2^32\<close>.
  After a wrap the counter is small again and the thread goes on with paths of other
  threads, possibly for ever; a loop that does not return is \<open>None\<close>.
\<close>

partial_function (option) grid_stride_u32 ::
  "(nat \<Rightarrow> 'a \<Rightarrow> 'a) \<Rightarrow> nat \<Rightarrow> nat \<Rightarrow> nat \<Rightarrow> 'a \<Rightarrow> 'a option" where
  "grid_stride_u32 body step numSims i acc =
     (if i < numSims
      then grid_stride_u32 body step numSims ((i + step) mod 2 ^ 32) (body i acc)
      else Some acc)"

section \<open>reduce\_sum\<close>

text \<open>
  \<open>reduce_sum\<close> is executed by all threads of one block. \<open>sdata\<close> is the shared array,
  one slot per thread; slot \<open>ltid\<close> first receives the argument \<open>in\<close> of thread \<open>ltid\<close>.
  Between two barriers the threads \<open>ltid < s\<close> each read slots \<open>ltid\<close> and \<open>ltid + s\<close>
  and write slot \<open>ltid\<close>; no slot read by one thread is written by another, so one pass
  of the loop body over the block is the simultaneous update \<open>reduce_step\<close>.
\<close>

definition reduce_step :: "nat \<Rightarrow> real list \<Rightarrow> real list" where
  "reduce_step s sdata =
     map (\<lambda>ltid. if ltid < s then sdata ! ltid + sdata ! (ltid + s) else sdata ! ltid)
         [0..<length sdata]"

function reduce_loop :: "nat \<Rightarrow> real list \<Rightarrow> real list" where
  "reduce_loop s sdata =
     (if s > 0 then reduce_loop (s div 2) (reduce_step s sdata) else sdata)"
  by pat_completeness auto
termination
  by (relation "measure (\<lambda>(s, sdata). s)") auto

declare reduce_loop.simps [simp del]

text \<open>The list \<open>ins\<close> holds the argument of each thread of the block; its length is \<open>blockDim.x\<close>.\<close>

definition reduce_sum :: "real list \<Rightarrow> real" where
  "reduce_sum ins = reduce_loop (length ins div 2) ins ! 0"

text \<open>
  The common tail of the valuation kernels: thread \<open>tid\<close> holds \<open>sumPayoffs tid\<close>, each
  block reduces its threads' values, and thread 0 of block \<open>bid\<close> stores the result in
  \<open>values[bid]\<close>. The result is the contents of \<open>values[0 .. gridDim.x)\<close>.
\<close>

definition block_reduce :: "nat \<Rightarrow> nat \<Rightarrow> (nat \<Rightarrow> real) \<Rightarrow> real list" where
  "block_reduce gridDim blockDim sumPayoffs =
     map (\<lambda>bid. reduce_sum (map (\<lambda>ltid. sumPayoffs (bid * blockDim + ltid)) [0..<blockDim]))
         [0..<gridDim]"

section \<open>Valuation kernels\<close>

text \<open>
  The inner loops walk the pointer \<open>path\<close> through one path:
  \<open>for (t = 0; t < numTimesteps; t++, path += numSims)\<close>. The first numeric argument
  of each loop function is the number of iterations still to run.
\<close>

subsection \<open>computeValuePlainVanilla\<close>

fun plainvanilla_loop :: "buffer \<Rightarrow> nat \<Rightarrow> nat \<Rightarrow> nat \<Rightarrow> real \<Rightarrow> real" where
  "plainvanilla_loop paths numSims 0 path finval = finval"
| "plainvanilla_loop paths numSims (Suc n) path finval =
     plainvanilla_loop paths numSims n (path + numSims) (paths path)"

definition plainvanilla_payoff :: "buffer \<Rightarrow> genericOption \<Rightarrow> nat \<Rightarrow> nat \<Rightarrow> nat \<Rightarrow> real" where
  "plainvanilla_payoff paths option numSims numTimesteps i =
     (let finval = plainvanilla_loop paths numSims numTimesteps i 0;
          finval = finval * spot option;
          payoff = finval - strike option;
          payoff = (if type option = Put then - payoff else payoff)
      in max 0 payoff)"

definition computeValuePlainVanilla ::
  "nat \<Rightarrow> nat \<Rightarrow> buffer \<Rightarrow> genericOption \<Rightarrow> nat \<Rightarrow> nat \<Rightarrow> real list" where
  "computeValuePlainVanilla gridDim blockDim paths option numSims numTimesteps =
     block_reduce gridDim blockDim
       (\<lambda>tid. grid_stride
                 (\<lambda>i sumPayoffs. sumPayoffs + plainvanilla_payoff paths option numSims numTimesteps i)
                 (gridDim * blockDim) numSims tid 0)"

subsection \<open>computeValueAsian\<close>

fun asian_loop :: "buffer \<Rightarrow> nat \<Rightarrow> nat \<Rightarrow> nat \<Rightarrow> real \<Rightarrow> real" where
  "asian_loop paths numSims 0 path avg = avg"
| "asian_loop paths numSims (Suc n) path avg =
     asian_loop paths numSims n (path + numSims) (avg + paths path)"

definition asian_payoff :: "buffer \<Rightarrow> genericOption \<Rightarrow> nat \<Rightarrow> nat \<Rightarrow> nat \<Rightarrow> real" where
  "asian_payoff paths option numSims numTimesteps i =
     (let avg = asian_loop paths numSims numTimesteps i 0;
          avg = avg * spot option / real numTimesteps;
          payoff = avg - strike option;
          payoff = (if type option = Put then - payoff else payoff)
      in max 0 payoff)"

definition computeValueAsian ::
  "nat \<Rightarrow> nat \<Rightarrow> buffer \<Rightarrow> genericOption \<Rightarrow> nat \<Rightarrow> nat \<Rightarrow> real list" where
  "computeValueAsian gridDim blockDim paths option numSims numTimesteps =
     block_reduce gridDim blockDim
       (\<lambda>tid. grid_stride
                 (\<lambda>i sumPayoffs. sumPayoffs + asian_payoff paths option numSims numTimesteps i)
                 (gridDim * blockDim) numSims tid 0)"

subsection \<open>computeValueLookback\<close>

text \<open>The loop state is the pair \<open>(finval, valmin)\<close>; \<open>valmin\<close> starts at 1.\<close>

fun lookback_loop :: "buffer \<Rightarrow> nat \<Rightarrow> nat \<Rightarrow> nat \<Rightarrow> real \<times> real \<Rightarrow> real \<times> real" where
  "lookback_loop paths numSims 0 path (finval, valmin) = (finval, valmin)"
| "lookback_loop paths numSims (Suc n) path (finval, valmin) =
     lookback_loop paths numSims n (path + numSims)
       (paths path, if valmin > paths path then paths path else valmin)"

definition lookback_payoff :: "buffer \<Rightarrow> genericOption \<Rightarrow> nat \<Rightarrow> nat \<Rightarrow> nat \<Rightarrow> real" where
  "lookback_payoff paths option numSims numTimesteps i =
     (let (finval, valmin) = lookback_loop paths numSims numTimesteps i (0, 1);
          finval = finval * spot option;
          payoff = finval - valmin * spot option
      in max 0 payoff)"

definition computeValueLookback ::
  "nat \<Rightarrow> nat \<Rightarrow> buffer \<Rightarrow> genericOption \<Rightarrow> nat \<Rightarrow> nat \<Rightarrow> real list" where
  "computeValueLookback gridDim blockDim paths option numSims numTimesteps =
     block_reduce gridDim blockDim
       (\<lambda>tid. grid_stride
                 (\<lambda>i sumPayoffs. sumPayoffs + lookback_payoff paths option numSims numTimesteps i)
                 (gridDim * blockDim) numSims tid 0)"

subsection \<open>computeValueKnockoutin\<close>

text \<open>The loop state is the pair \<open>(finval, killer)\<close>; \<open>killer\<close> is reset to 1 for every path.\<close>

fun knockoutin_loop ::
  "buffer \<Rightarrow> genericOption \<Rightarrow> nat \<Rightarrow> nat \<Rightarrow> nat \<Rightarrow> real \<times> real \<Rightarrow> real \<times> real" where
  "knockoutin_loop paths option numSims 0 path (finval, killer) = (finval, killer)"
| "knockoutin_loop paths option numSims (Suc n) path (finval, killer) =
     knockoutin_loop paths option numSims n (path + numSims)
       (paths path, if paths path * spot option > barrier option then 0 else killer)"

text \<open>The pair returned is \<open>(payoffknockout, payoffknockin)\<close>.\<close>

definition knockoutin_payoff ::
  "buffer \<Rightarrow> genericOption \<Rightarrow> nat \<Rightarrow> nat \<Rightarrow> nat \<Rightarrow> real \<times> real" where
  "knockoutin_payoff paths option numSims numTimesteps i =
     (let (finval, killer) = knockoutin_loop paths option numSims numTimesteps i (0, 1);
          finvalknockout = finval * spot option * killer;
          finvalknockin = finval * spot option * (1 - killer);
          payoffknockout = finvalknockout - strike option;
          payoffknockin = finvalknockin - strike option;
          payoffknockout = (if type option = Put then - payoffknockout else payoffknockout);
          payoffknockin = (if type option = Put then - payoffknockin else payoffknockin)
      in (max 0 payoffknockout, max 0 payoffknockin))"

text \<open>
  The kernel keeps two running sums and reduces each of them; the result is the pair of
  the contents of \<open>valuesko\<close> and \<open>valueski\<close>.
\<close>

definition computeValueKnockoutin ::
  "nat \<Rightarrow> nat \<Rightarrow> buffer \<Rightarrow> genericOption \<Rightarrow> nat \<Rightarrow> nat \<Rightarrow> real list \<times> real list" where
  "computeValueKnockoutin gridDim blockDim paths option numSims numTimesteps =
     (let thread_sums = (\<lambda>tid. grid_stride
                    (\<lambda>i (sumPayoffsknockout, sumPayoffsknockin).
                        (sumPayoffsknockout + fst (knockoutin_payoff paths option numSims numTimesteps i),
                         sumPayoffsknockin + snd (knockoutin_payoff paths option numSims numTimesteps i)))
                    (gridDim * blockDim) numSims tid (0, 0))
      in (block_reduce gridDim blockDim (\<lambda>tid. fst (thread_sums tid)),
          block_reduce gridDim blockDim (\<lambda>tid. snd (thread_sums tid))))"

section \<open>Path generation\<close>

text \<open>
  The CURAND generator is a library outside the repository. It is taken as a pair of
  parameters: \<open>curand_init seed sequence offset\<close> gives a generator state, and
  \<open>curand_normal\<close> returns one standard-normal variate together with the advanced state
  (the source passes the state by pointer).
\<close>

definition initRNG ::
  "(nat \<Rightarrow> nat \<Rightarrow> nat \<Rightarrow> 'st) \<Rightarrow> nat \<Rightarrow> nat \<Rightarrow> nat \<Rightarrow> (nat \<Rightarrow> 'st) \<Rightarrow> (nat \<Rightarrow> 'st)" where
  "initRNG curand_init gridDim blockDim seed rngStates =
     (\<lambda>tid. if tid < gridDim * blockDim then curand_init seed tid 0 else rngStates tid)"

definition getPathStep :: "('st \<Rightarrow> real \<times> 'st) \<Rightarrow> real \<Rightarrow> real \<Rightarrow> 'st \<Rightarrow> real \<times> 'st" where
  "getPathStep curand_normal drift diffusion state =
     (let (z, state') = curand_normal state in (exp (drift + diffusion * z), state'))"

text \<open>
  The inner loop of \<open>generatePaths\<close>: \<open>output\<close> is the offset of the output pointer, \<open>s\<close>
  the running product, and the state is the path array with the thread's generator.
\<close>

fun simulate_loop ::
  "('st \<Rightarrow> real \<times> 'st) \<Rightarrow> real \<Rightarrow> real \<Rightarrow> nat \<Rightarrow> nat \<Rightarrow> nat \<Rightarrow> real \<Rightarrow> buffer \<times> 'st \<Rightarrow> buffer \<times> 'st" where
  "simulate_loop curand_normal drift diffusion numSims 0 output s (paths, localState) =
     (paths, localState)"
| "simulate_loop curand_normal drift diffusion numSims (Suc n) output s (paths, localState) =
     (let (step, localState') = getPathStep curand_normal drift diffusion localState;
          s' = s * step
      in simulate_loop curand_normal drift diffusion numSims n (output + numSims) s'
           (paths(output := s'), localState'))"

definition generatePaths_thread ::
  "('st \<Rightarrow> real \<times> 'st) \<Rightarrow> (nat \<Rightarrow> 'st) \<Rightarrow> genericOption \<Rightarrow> nat \<Rightarrow> nat \<Rightarrow> nat \<Rightarrow> nat \<Rightarrow> buffer \<Rightarrow> buffer" where
  "generatePaths_thread curand_normal rngStates option numSims numTimesteps step tid paths =
     (let drift = (r option - 0.5 * sigma option * sigma option) * dt option;
          diffusion = sigma option * sqrt (dt option);
          localState = rngStates tid
      in fst (grid_stride
                (\<lambda>i (paths, localState).
                    simulate_loop curand_normal drift diffusion numSims numTimesteps i 1
                      (paths, localState))
                step numSims tid (paths, localState)))"

text \<open>
  The kernel runs the threads \<open>tid < gridDim.x * blockDim.x\<close>. Each thread writes only
  the columns of its own paths, so the threads are run one after the other here.
\<close>

definition generatePaths ::
  "nat \<Rightarrow> nat \<Rightarrow> ('st \<Rightarrow> real \<times> 'st) \<Rightarrow> (nat \<Rightarrow> 'st) \<Rightarrow> genericOption \<Rightarrow> nat \<Rightarrow> nat \<Rightarrow> buffer \<Rightarrow> buffer" where
  "generatePaths gridDim blockDim curand_normal rngStates option numSims numTimesteps paths =
     fold (generatePaths_thread curand_normal rngStates option numSims numTimesteps
             (gridDim * blockDim))
          [0..<gridDim * blockDim] paths"

text \<open>The \<open>n\<close>-th variate a generator state will give, counting from 0.\<close>

definition variate :: "('st \<Rightarrow> real \<times> 'st) \<Rightarrow> 'st \<Rightarrow> nat \<Rightarrow> real" where
  "variate curand_normal state n = fst (curand_normal (((snd \<circ> curand_normal) ^^ n) state))"

section \<open>PricingEngine\<close>

record PricingEngine =
  m_numSims :: nat
  m_device :: nat
  m_threadBlockSize :: nat
  m_seed :: nat

text \<open>
  The CUDA runtime is outside the repository: what each of its calls returns is the
  parameter \<open>backend\<close>. \<open>cudaMemcpy dev n\<close> is the status of the \<open>n\<close>-th copy of a run
  (0 the option record to the device, then the partial sums of PlainVanilla, Asian,
  Knockout, Knockin and Lookback). \<open>fresh_paths\<close> and \<open>fresh_rngStates\<close> are the contents
  of newly allocated device memory.
\<close>

datatype cudaError_t = cudaSuccess | cudaError nat

datatype kernel =
  KinitRNG | KgeneratePaths | KcomputeValueAsian | KcomputeValuePlainVanilla
  | KcomputeValueKnockoutin | KcomputeValueLookback

datatype devptr = d_option | d_paths | d_rngStates | d_values | d_values2

record 'st backend =
  cudaGetDeviceProperties :: cudaError_t
  major :: nat
  minor :: nat
  multiProcessorCount :: nat
  cudaSetDevice :: cudaError_t
  cudaFuncGetAttributes :: "kernel \<Rightarrow> cudaError_t"
  maxThreadsPerBlock :: "kernel \<Rightarrow> nat"
  cudaMalloc :: "devptr \<Rightarrow> cudaError_t"
  cudaMemcpy :: "nat \<Rightarrow> cudaError_t"
  curand_init :: "nat \<Rightarrow> nat \<Rightarrow> nat \<Rightarrow> 'st"
  curand_normal :: "'st \<Rightarrow> real \<times> 'st"
  fresh_paths :: buffer
  fresh_rngStates :: "nat \<Rightarrow> 'st"

text \<open>
  An exception carries the literal part of its message. The integer division by
  \<open>m_threadBlockSize\<close> traps when the block size is 0.
\<close>

datatype error = runtime_error string | division_by_zero

text \<open>
  What a call of \<open>operator()\<close> leaves behind: how it ended (\<open>None\<close> for a normal return),
  the option record, which is passed by reference and keeps every assignment made before
  an exception, the device pointers obtained from successful \<open>cudaMalloc\<close> calls and the
  device pointers passed to \<open>cudaFree\<close>, both in call order.
\<close>

record run =
  outcome :: "error option"
  option_after :: genericOption
  allocated :: "devptr list"
  freed :: "devptr list"

definition throw :: "error \<Rightarrow> genericOption \<Rightarrow> devptr list \<Rightarrow> run" where
  "throw e option ptrs = \<lparr>outcome = Some e, option_after = option, allocated = ptrs, freed = []\<rparr>"

text \<open>\<open>static_cast<int>\<close> of a real truncates towards zero.\<close>

definition static_cast_int :: "real \<Rightarrow> int" where
  "static_cast_int x = (if 0 \<le> x then floor x else ceiling x)"

text \<open>The \<open>while (grid.x > 2 * blocksPerSM * numSMs) grid.x >>= 1\<close> loop.\<close>

function halve_grid :: "nat \<Rightarrow> nat \<Rightarrow> nat" where
  "halve_grid gridx bound = (if gridx > bound then halve_grid (gridx div 2) bound else gridx)"
  by pat_completeness auto
termination
  by (relation "measure (\<lambda>(gridx, bound). gridx)") auto

declare halve_grid.simps [simp del]

text \<open>\<open>grid.x\<close> as the launches use it; the arithmetic is unsigned 32-bit.\<close>

definition grid_x :: "PricingEngine \<Rightarrow> 'st backend \<Rightarrow> nat" where
  "grid_x eng dev =
     halve_grid (((m_numSims eng + m_threadBlockSize eng - 1) mod 2 ^ 32) div m_threadBlockSize eng)
                ((2 * 10 * multiProcessorCount dev) mod 2 ^ 32)"

text \<open>
  The checks of \<open>operator()\<close> that come before the first allocation, in source order;
  the result is the first exception raised, if any. \<open>is_double\<close> says whether \<open>Real\<close> is
  \<open>double\<close>.
\<close>

definition check_kernel :: "PricingEngine \<Rightarrow> 'st backend \<Rightarrow> kernel \<Rightarrow> string \<Rightarrow> error option" where
  "check_kernel eng dev k msg =
     (if cudaFuncGetAttributes dev k \<noteq> cudaSuccess
        then Some (runtime_error ''Could not get function attributes: '')
      else if m_threadBlockSize eng > maxThreadsPerBlock dev k
        then Some (runtime_error msg)
      else None)"

definition device_checks :: "bool \<Rightarrow> PricingEngine \<Rightarrow> 'st backend \<Rightarrow> error option" where
  "device_checks is_double eng dev =
     (if cudaGetDeviceProperties dev \<noteq> cudaSuccess
        then Some (runtime_error ''Could not get device properties: '')
      else if is_double \<and> major dev * 10 + minor dev < 13
        then Some (runtime_error ''Device does not have double precision support'')
      else if cudaSetDevice dev \<noteq> cudaSuccess
        then Some (runtime_error ''Could not set CUDA device: '')
      else if m_threadBlockSize eng = 0
        then Some division_by_zero
      else case check_kernel eng dev KinitRNG
                  ''Block X dimension is too large for initRNG kernel'' of
        Some e \<Rightarrow> Some e
      | None \<Rightarrow> (case check_kernel eng dev KgeneratePaths
                  ''Block X dimension is too large for generatePaths kernel'' of
        Some e \<Rightarrow> Some e
      | None \<Rightarrow> (case check_kernel eng dev KcomputeValueAsian
                  ''Block X dimension is too large for computeValueAsian kernel'' of
        Some e \<Rightarrow> Some e
      | None \<Rightarrow> (case check_kernel eng dev KcomputeValuePlainVanilla
                  ''Block X dimension is too large for computeValuePlainVanilla kernel'' of
        Some e \<Rightarrow> Some e
      | None \<Rightarrow> (case check_kernel eng dev KcomputeValueKnockoutin
                  ''Block X dimension is too large for computeValueKnockoutin kernel'' of
        Some e \<Rightarrow> Some e
      | None \<Rightarrow> check_kernel eng dev KcomputeValueLookback
                  ''Block X dimension is too large for computeValueLookback kernel'')))))"

text \<open>
  \<open>numTimesteps\<close> is an \<open>int\<close> on the host and an \<open>unsigned int\<close> kernel parameter.
\<close>

definition numTimesteps_host :: "genericOption \<Rightarrow> int" where
  "numTimesteps_host option = static_cast_int (tenor option / dt option)"

definition numTimesteps_device :: "genericOption \<Rightarrow> nat" where
  "numTimesteps_device option = nat (numTimesteps_host option mod 2 ^ 32)"

text \<open>The contents of \<open>d_paths\<close> after \<open>initRNG\<close> and \<open>generatePaths\<close> have run.\<close>

definition device_paths :: "PricingEngine \<Rightarrow> 'st backend \<Rightarrow> genericOption \<Rightarrow> buffer" where
  "device_paths eng dev option =
     generatePaths (grid_x eng dev) (m_threadBlockSize eng) (curand_normal dev)
       (initRNG (curand_init dev) (grid_x eng dev) (m_threadBlockSize eng) (m_seed eng)
          (fresh_rngStates dev))
       option (m_numSims eng) (numTimesteps_device option) (fresh_paths dev)"

text \<open>
  The host finishing statements that follow every copy of partial sums:
  \<open>std::accumulate\<close> from 0, division by \<open>m_numSims\<close>, multiplication by
  \<open>exp(- option.r * option.tenor)\<close>. The source writes them as three assignments to the
  result field.
\<close>

definition finish_value :: "real list \<Rightarrow> nat \<Rightarrow> genericOption \<Rightarrow> real" where
  "finish_value values numSims option =
     (let v = foldl (+) 0 values;
          v = v / real numSims;
          v = v * exp (- r option * tenor option)
      in v)"

text \<open>
  \<open>PricingEngine::operator()\<close>. The kernels read the device copy of the option record,
  made before any result field is assigned; kernel launches are not checked by the
  source and have no failure branch. An exception leaves the function at once: nothing
  after the \<open>throw\<close> runs, in particular not the cleanup at the end.
\<close>

definition PricingEngine_call :: "bool \<Rightarrow> PricingEngine \<Rightarrow> 'st backend \<Rightarrow> genericOption \<Rightarrow> run" where
  "PricingEngine_call is_double eng dev option =
     (case device_checks is_double eng dev of
        Some e \<Rightarrow> throw e option []
      | None \<Rightarrow>
     let grid = grid_x eng dev;
         block = m_threadBlockSize eng;
         numSims = m_numSims eng;
         device_option = option
     in
     if cudaMalloc dev d_option \<noteq> cudaSuccess
       then throw (runtime_error ''Could not allocate memory on device for option data: '')
              option []
     else if cudaMemcpy dev 0 \<noteq> cudaSuccess
       then throw (runtime_error ''Could not copy data to device: '') option [d_option]
     else
     let numTimesteps = numTimesteps_device option in
     if cudaMalloc dev d_paths \<noteq> cudaSuccess
       then throw (runtime_error ''Could not allocate memory on device for paths: '')
              option [d_option]
     else if cudaMalloc dev d_rngStates \<noteq> cudaSuccess
       then throw (runtime_error ''Could not allocate memory on device for RNG state: '')
              option [d_option, d_paths]
     else if cudaMalloc dev d_values \<noteq> cudaSuccess
       then throw (runtime_error ''Could not allocate memory on device for partial results: '')
              option [d_option, d_paths, d_rngStates]
     else
     let paths = device_paths eng dev device_option;
         values = computeValuePlainVanilla grid block paths device_option numSims numTimesteps
     in
     if cudaMemcpy dev 1 \<noteq> cudaSuccess
       then throw (runtime_error ''Could not copy partial results to host: '')
              option [d_option, d_paths, d_rngStates, d_values]
     else
     let option = option\<lparr>valuePlainVanilla := finish_value values numSims option\<rparr>;
         values = computeValueAsian grid block paths device_option numSims numTimesteps
     in
     if cudaMemcpy dev 2 \<noteq> cudaSuccess
       then throw (runtime_error ''Could not copy partial results to host: '')
              option [d_option, d_paths, d_rngStates, d_values]
     else
     let option = option\<lparr>valueAsian := finish_value values numSims option\<rparr> in
     if cudaMalloc dev d_values2 \<noteq> cudaSuccess
       then throw (runtime_error ''Could not allocate memory on device for partial results: '')
              option [d_option, d_paths, d_rngStates, d_values]
     else
     let (valuesko, valueski) =
           computeValueKnockoutin grid block paths device_option numSims numTimesteps
     in
     if cudaMemcpy dev 3 \<noteq> cudaSuccess
       then throw (runtime_error ''Could not copy partial results to host: '')
              option [d_option, d_paths, d_rngStates, d_values, d_values2]
     else
     let option = option\<lparr>valueKnockout := finish_value valuesko numSims option\<rparr> in
     if cudaMemcpy dev 4 \<noteq> cudaSuccess
       then throw (runtime_error ''Could not copy partial results to host: '')
              option [d_option, d_paths, d_rngStates, d_values, d_values2]
     else
     let option = option\<lparr>valueKnockin := finish_value valueski numSims option\<rparr>;
         values = computeValueLookback grid block paths device_option numSims numTimesteps
     in
     if cudaMemcpy dev 5 \<noteq> cudaSuccess
       then throw (runtime_error ''Could not copy partial results to host: '')
              option [d_option, d_paths, d_rngStates, d_values, d_values2]
     else
     let option = option\<lparr>valueLookback := finish_value values numSims option\<rparr> in
     \<lparr>outcome = None, option_after = option,
      allocated = [d_option, d_paths, d_rngStates, d_values, d_values2],
      freed = [d_option, d_paths, d_rngStates, d_values, d_values2]\<rparr>)"

section \<open>The serial pricer\<close>

text \<open>
  \<open>box_muller\<close> draws on \<open>rand()\<close> and keeps a spare variate in static variables. What a
  call \<open>box_muller(0.0, 1.0)\<close> returns is the parameter \<open>normal\<close>: a generator state goes
  in, the variate and the next state come out.
\<close>

fun serial_path ::
  "('g \<Rightarrow> real \<times> 'g) \<Rightarrow> real \<Rightarrow> real \<Rightarrow> nat \<Rightarrow> real \<times> 'g \<Rightarrow> real \<times> 'g" where
  "serial_path normal MuBydT VBySqrtdT 0 (St, g) = (St, g)"
| "serial_path normal MuBydT VBySqrtdT (Suc n) (St, g) =
     (let (rn, g') = normal g
      in serial_path normal MuBydT VBySqrtdT n (St * exp (MuBydT + VBySqrtdT * rn), g'))"

fun serial_sims ::
  "('g \<Rightarrow> real \<times> 'g) \<Rightarrow> real \<Rightarrow> real \<Rightarrow> real \<Rightarrow> real \<Rightarrow> nat \<Rightarrow> nat \<Rightarrow> real \<times> 'g \<Rightarrow> real \<times> 'g" where
  "serial_sims normal MuBydT VBySqrtdT S X numtimeSteps 0 (sumVanilla, g) = (sumVanilla, g)"
| "serial_sims normal MuBydT VBySqrtdT S X numtimeSteps (Suc n) (sumVanilla, g) =
     (let (St, g') = serial_path normal MuBydT VBySqrtdT numtimeSteps (S, g);
          valOp = (if St > X then St - X else 0)
      in serial_sims normal MuBydT VBySqrtdT S X numtimeSteps n (sumVanilla + valOp, g'))"

text \<open>
  \<open>PricingEngine::operator[]\<close>. The inner loop compares the \<open>int\<close> counter with the
  \<open>int\<close> \<open>numtimeSteps\<close>, so a negative count runs no step.
\<close>

definition PricingEngine_index ::
  "('g \<Rightarrow> real \<times> 'g) \<Rightarrow> PricingEngine \<Rightarrow> genericOption \<Rightarrow> 'g \<Rightarrow> genericOption \<times> 'g" where
  "PricingEngine_index normal eng option g =
     (let S = spot option;
          X = strike option;
          T = tenor option;
          R = r option;
          V = sigma option;
          N = real (m_numSims eng);
          numtimeSteps = numTimesteps_host option;
          MuBydT = (R - 0.5 * V * V) * dt option;
          VBySqrtdT = V * sqrt (dt option);
          (sumVanilla, g') =
             serial_sims normal MuBydT VBySqrtdT S X (nat numtimeSteps) (m_numSims eng) (0, g)
      in (option\<lparr>valuePlainVanillaCPU := exp (- R * T) * sumVanilla / N\<rparr>, g'))"

section \<open>The matrix view and the driver's option\<close>

text \<open>\<open>path_entry paths numSims i t\<close> is the entry of path \<open>i\<close> at time step \<open>t\<close>.\<close>

definition path_entry :: "buffer \<Rightarrow> nat \<Rightarrow> nat \<Rightarrow> nat \<Rightarrow> real" where
  "path_entry paths numSims i t = paths (i + t * numSims)"

text \<open>
  The option that \<open>Test::operator()\<close> prices. The driver leaves the result fields other
  than \<open>valueAsian\<close> unassigned; they are 0 here.
\<close>

definition Test_option :: genericOption where
  "Test_option =
     \<lparr>spot = 40, strike = 35, r = 0.03, sigma = 0.20, tenor = 1 / 3, dt = 1 / 261,
      barrier = 45, golden = 5.162534, valueAsian = 0, valuePlainVanilla = 0,
      valuePlainVanillaCPU = 0, valueKnockout = 0, valueKnockin = 0, valueLookback = 0,
      valueALK = 0, type = Call\<rparr>"

section \<open>Example inputs and the frame of the parallel pass\<close>

text \<open>
  An engine with one path and one thread per block, and a device on which every runtime
  call succeeds and every variate is 0.
\<close>

definition example_engine :: PricingEngine where
  "example_engine = \<lparr>m_numSims = 1, m_device = 0, m_threadBlockSize = 1, m_seed = 1234\<rparr>"

definition example_backend :: "nat backend" where
  "example_backend =
     \<lparr>cudaGetDeviceProperties = cudaSuccess, major = 2, minor = 0, multiProcessorCount = 14,
      cudaSetDevice = cudaSuccess, cudaFuncGetAttributes = (\<lambda>k. cudaSuccess),
      maxThreadsPerBlock = (\<lambda>k. 1024), cudaMalloc = (\<lambda>p. cudaSuccess),
      cudaMemcpy = (\<lambda>n. cudaSuccess), curand_init = (\<lambda>seed sequence offset. 0),
      curand_normal = (\<lambda>state. (0, Suc state)), fresh_paths = (\<lambda>k. 0),
      fresh_rngStates = (\<lambda>tid. 0)\<rparr>"

text \<open>
  A Put on the driver's spot, strike and barrier with no drift, no volatility and a
  single time step: every simulated path stays at the spot.
\<close>

definition flat_put :: genericOption where
  "flat_put = Test_option\<lparr>r := 0, sigma := 0, tenor := 1, dt := 1, type := Put\<rparr>"

text \<open>The fields of the option record other than the five values of the parallel passes.\<close>

definition params ::
  "genericOption \<Rightarrow> (real \<times> real \<times> real \<times> real \<times> real \<times> real \<times> real) \<times> (real \<times> real \<times> real \<times> CallPut)" where
  "params option =
     ((spot option, strike option, r option, sigma option, tenor option, dt option,
       barrier option),
      (golden option, valuePlainVanillaCPU option, valueALK option, type option))"

text \<open>The same device, except that the first copy of partial sums to the host fails.\<close>

definition failing_copy_backend :: "nat backend" where
  "failing_copy_backend =
     example_backend\<lparr>cudaMemcpy := (\<lambda>n. if n = 1 then cudaError 30 else cudaSuccess)\<rparr>"

section \<open>The block reduction computes the sum\<close>

lemma length_reduce_step: "length (reduce_step s sdata) = length sdata"
  by (simp add: reduce_step_def)

lemma take_reduce_step:
  assumes "2 * s \<le> length sdata"
  shows "take s (reduce_step s sdata) = map (\<lambda>j. sdata ! j + sdata ! (j + s)) [0..<s]"
proof -
  have "take s (reduce_step s sdata)
      = map (\<lambda>ltid. if ltid < s then sdata ! ltid + sdata ! (ltid + s) else sdata ! ltid) [0..<s]"
    using assms unfolding reduce_step_def take_map by simp
  also have "\<dots> = map (\<lambda>j. sdata ! j + sdata ! (j + s)) [0..<s]"
    by (rule map_cong) simp_all
  finally show ?thesis .
qed

lemma sum_list_take_nth:
  fixes xs :: "real list"
  assumes "n \<le> length xs"
  shows "sum_list (take n xs) = (\<Sum>j<n. xs ! j)"
  using assms by (simp add: sum_list_sum_nth atLeast0LessThan min_def)

lemma sum_reduce_step:
  assumes "2 * s \<le> length sdata"
  shows "sum_list (take s (reduce_step s sdata)) = sum_list (take (2 * s) sdata)"
proof -
  have "sum_list (take s (reduce_step s sdata)) = (\<Sum>j<s. sdata ! j + sdata ! (j + s))"
    using assms by (simp add: take_reduce_step sum_list_sum_nth atLeast0LessThan)
  also have "\<dots> = (\<Sum>j<s. sdata ! j) + (\<Sum>j<s. sdata ! (j + s))"
    by (simp add: sum.distrib)
  also have "(\<Sum>j<s. sdata ! (j + s)) = (\<Sum>j=s..<2 * s. sdata ! j)"
    using sum.shift_bounds_nat_ivl[of "\<lambda>j. sdata ! j" 0 s s]
    by (simp add: atLeast0LessThan mult_2)
  also have "(\<Sum>j<s. sdata ! j) + (\<Sum>j=s..<2 * s. sdata ! j) = (\<Sum>j<2 * s. sdata ! j)"
    using sum.atLeastLessThan_concat[of 0 s "2 * s" "\<lambda>j. sdata ! j"]
    by (simp add: atLeast0LessThan)
  finally show ?thesis using assms by (simp add: sum_list_take_nth)
qed

lemma reduce_loop_pow2:
  "2 ^ k \<le> length sdata \<Longrightarrow> reduce_loop (2 ^ k div 2) sdata ! 0 = sum_list (take (2 ^ k) sdata)"
proof (induction k arbitrary: sdata)
  case 0
  then show ?case
    by (cases sdata) (simp_all add: reduce_loop.simps)
next
  case (Suc k)
  have "reduce_loop (2 ^ Suc k div 2) sdata = reduce_loop (2 ^ k div 2) (reduce_step (2 ^ k) sdata)"
    by (subst reduce_loop.simps) simp
  moreover have "2 ^ k \<le> length (reduce_step (2 ^ k) sdata)"
    using Suc.prems by (simp add: length_reduce_step)
  ultimately have "reduce_loop (2 ^ Suc k div 2) sdata ! 0
      = sum_list (take (2 ^ k) (reduce_step (2 ^ k) sdata))"
    using Suc.IH by simp
  also have "\<dots> = sum_list (take (2 * 2 ^ k) sdata)"
    using Suc.prems by (intro sum_reduce_step) simp
  finally show ?case by simp
qed

lemma foldl_plus_sum_list: "foldl (+) a xs = a + sum_list (xs :: real list)"
  by (induction xs arbitrary: a) simp_all

lemma reduce_sum_pow2: "length ins = 2 ^ k \<Longrightarrow> reduce_sum ins = sum_list ins"
  using reduce_loop_pow2[of k ins] by (simp add: reduce_sum_def)

text \<open>
  C9. For a block whose size is a power of two, the tree reduction (halving
  \<open>s = blockDim.x / 2, ..., 1\<close>, thread \<open>ltid < s\<close> adding slot \<open>ltid + s\<close> into slot
  \<open>ltid\<close>, a barrier after each step) leaves in slot 0 the sum of all per-thread inputs:
  the value a sequential left fold of the inputs from 0 gives, whatever the block size.
\<close>

theorem reduce_sum_is_fold:
  "length ins = 2 ^ k \<Longrightarrow> reduce_sum ins = foldl (+) 0 ins"
  by (simp add: reduce_sum_pow2 foldl_plus_sum_list)

theorem reduce_sum_is_fold_witness:
  "length [1, 2, 3, 4 :: real] = 2 ^ 2 \<and> reduce_sum [1, 2, 3, 4] = foldl (+) 0 [1, 2, 3, 4]"
  using reduce_sum_is_fold[of "[1, 2, 3, 4]" 2] by simp

section \<open>The per-path loops in closed form\<close>

lemma plainvanilla_loop_eq:
  "plainvanilla_loop paths numSims n path finval =
     (if n = 0 then finval else paths (path + (n - 1) * numSims))"
  by (induction n arbitrary: path finval) (auto simp: algebra_simps gr0_conv_Suc)

lemma lookback_loop_fst:
  "fst (lookback_loop paths numSims n path (finval, valmin)) =
     plainvanilla_loop paths numSims n path finval"
  by (induction n arbitrary: path finval valmin) auto

lemma Min_insert_min:
  fixes a :: real
  assumes "finite A"
  shows "Min (insert (min a b) A) = Min (insert a (insert b A))"
  using assms by (cases "A = {}") (simp_all add: min.assoc)

lemma lookback_loop_snd:
  "snd (lookback_loop paths numSims n path (finval, valmin)) =
     Min (insert valmin ((\<lambda>t. paths (path + t * numSims)) ` {..<n}))"
proof (induction n arbitrary: path finval valmin)
  case 0
  then show ?case by simp
next
  case (Suc n)
  have img: "(\<lambda>t. paths (path + t * numSims)) ` {..<Suc n}
      = insert (paths path) ((\<lambda>t. paths (path + numSims + t * numSims)) ` {..<n})"
    by (auto simp: lessThan_Suc_eq_insert_0 image_iff algebra_simps)
  have "snd (lookback_loop paths numSims (Suc n) path (finval, valmin))
      = Min (insert (min valmin (paths path))
               ((\<lambda>t. paths (path + numSims + t * numSims)) ` {..<n}))"
    using Suc.IH[of "path + numSims" "paths path" "min valmin (paths path)"]
    by (auto simp: min_def)
  also have "\<dots> = Min (insert valmin (insert (paths path)
               ((\<lambda>t. paths (path + numSims + t * numSims)) ` {..<n})))"
    by (rule Min_insert_min) simp
  finally show ?case by (simp only: img)
qed

lemma knockoutin_loop_fst:
  "fst (knockoutin_loop paths option numSims n path (finval, killer)) =
     plainvanilla_loop paths numSims n path finval"
  by (induction n arbitrary: path finval killer) auto

lemma knockoutin_loop_snd:
  "snd (knockoutin_loop paths option numSims n path (finval, killer)) =
     (if \<exists>t<n. paths (path + t * numSims) * spot option > barrier option then 0 else killer)"
proof (induction n arbitrary: path finval killer)
  case 0
  then show ?case by simp
next
  case (Suc n)
  have ex: "(\<exists>t<Suc n. paths (path + t * numSims) * spot option > barrier option)
      \<longleftrightarrow> paths path * spot option > barrier option
          \<or> (\<exists>t<n. paths (path + numSims + t * numSims) * spot option > barrier option)"
    by (auto simp: less_Suc_eq_0_disj algebra_simps)
  show ?case
    using Suc.IH[of "path + numSims"] by (simp only: ex knockoutin_loop.simps snd_conv) auto
qed


section \<open>Knock-out and knock-in payoffs\<close>

lemma knockoutin_payoff_eq:
  "knockoutin_payoff paths option numSims numTimesteps i =
     (let finval = plainvanilla_loop paths numSims numTimesteps i 0 * spot option;
          breached = (\<exists>t<numTimesteps. path_entry paths numSims i t * spot option > barrier option);
          sign = (if type option = Put then - 1 else 1)
      in (max 0 (sign * ((if breached then 0 else finval) - strike option)),
          max 0 (sign * ((if breached then finval else 0) - strike option))))"
proof -
  obtain f k where fk: "knockoutin_loop paths option numSims numTimesteps i (0, 1) = (f, k)"
    by (cases "knockoutin_loop paths option numSims numTimesteps i (0, 1)")
  have f: "f = plainvanilla_loop paths numSims numTimesteps i 0"
    using knockoutin_loop_fst[of paths option numSims numTimesteps i 0 1] fk by simp
  have k: "k = (if \<exists>t<numTimesteps. paths (i + t * numSims) * spot option > barrier option
                then 0 else 1)"
    using knockoutin_loop_snd[of paths option numSims numTimesteps i 0 1] fk by simp
  show ?thesis
    unfolding knockoutin_payoff_def fk by (auto simp: f k Let_def path_entry_def)
qed

lemma knockoutin_payoff_call:
  assumes "type option = Call" and "0 \<le> strike option"
  shows "knockoutin_payoff paths option numSims numTimesteps i =
     (if \<exists>t<numTimesteps. path_entry paths numSims i t * spot option > barrier option
      then (0, plainvanilla_payoff paths option numSims numTimesteps i)
      else (plainvanilla_payoff paths option numSims numTimesteps i, 0))"
  using assms by (auto simp: knockoutin_payoff_eq plainvanilla_payoff_def Let_def)

text \<open>
  C1. The claim: the knock-out payoff of a path is \<open>max(0, \<plusminus>(finalValue - strike))\<close> when
  the barrier is never breached and 0 when it is breached at some time step, and the
  knock-in payoff the other way round. The kernel zeroes the final value, not the payoff
  (\<open>knockoutin_payoff_eq\<close>), so the two agree for a Call with a non-negative strike
  (\<open>knockoutin_payoff_call\<close>) and differ for a Put: on the driver's option turned into a
  Put, a path that rises to 1.2 times the spot breaches the barrier (48 > 45) and the
  knock-out payoff is the strike, 35, where the claim says 0.
\<close>

theorem knockout_put_pays_strike:
  "path_entry (\<lambda>k. 1.2) 1 0 0 * spot (Test_option\<lparr>type := Put\<rparr>)
      > barrier (Test_option\<lparr>type := Put\<rparr>)
   \<and> knockoutin_payoff (\<lambda>k. 1.2) (Test_option\<lparr>type := Put\<rparr>) 1 1 0 = (35, 0)"
  by (simp add: knockoutin_payoff_def Test_option_def path_entry_def)

section \<open>Lookback payoff\<close>

lemma lookback_payoff_eq:
  "lookback_payoff paths option numSims numTimesteps i =
     max 0 (plainvanilla_loop paths numSims numTimesteps i 0 * spot option
            - Min (insert 1 (path_entry paths numSims i ` {..<numTimesteps})) * spot option)"
proof -
  obtain f m where fm: "lookback_loop paths numSims numTimesteps i (0, 1) = (f, m)"
    by (cases "lookback_loop paths numSims numTimesteps i (0, 1)")
  have f: "f = plainvanilla_loop paths numSims numTimesteps i 0"
    using lookback_loop_fst[of paths numSims numTimesteps i 0 1] fm by simp
  have m: "m = Min (insert 1 ((\<lambda>t. paths (i + t * numSims)) ` {..<numTimesteps}))"
    using lookback_loop_snd[of paths numSims numTimesteps i 0 1] fm by simp
  have pe: "path_entry paths numSims i = (\<lambda>t. paths (i + t * numSims))"
    by (rule ext) (simp add: path_entry_def)
  show ?thesis
    unfolding lookback_payoff_def fm by (simp add: f m pe)
qed

text \<open>
  C4, as stated: the lookback payoff of a path is \<open>max(0, finalValue - floorVal)\<close> with
  \<open>floorVal\<close> the spot times the minimum over exactly the stored entries of the path. It
  fails on a path that stays above its start: \<open>valmin\<close> is initialised to 1, the
  normalised start value, so with the single entry 1.5 the code pays 60 - 40 = 20 where
  the claim gives 60 - 60 = 0.
\<close>

theorem lookback_floor_counterexample:
  "lookback_payoff (\<lambda>k. 1.5) Test_option 1 1 0 \<noteq>
     max 0 (spot Test_option * path_entry (\<lambda>k. 1.5) 1 0 0
            - spot Test_option * Min (path_entry (\<lambda>k. 1.5) 1 0 ` {..<1}))"
  by (simp add: lookback_payoff_def Test_option_def path_entry_def lessThan_Suc)

text \<open>
  C4, amended: for a path with at least one time step, the lookback payoff is
  \<open>max(0, finalValue - floorVal)\<close> where \<open>finalValue\<close> is the spot times the last stored
  entry and \<open>floorVal\<close> is the spot times the minimum of the start value 1 and the stored
  entries of the path.
\<close>

theorem lookback_payoff_floor:
  "0 < numTimesteps \<Longrightarrow>
   lookback_payoff paths option numSims numTimesteps i =
     max 0 (spot option * path_entry paths numSims i (numTimesteps - 1)
            - spot option * Min (insert 1 (path_entry paths numSims i ` {..<numTimesteps})))"
  by (simp add: lookback_payoff_eq plainvanilla_loop_eq path_entry_def mult.commute)

theorem lookback_payoff_floor_witness:
  "0 < (1::nat) \<and>
   lookback_payoff (\<lambda>k. 1.5) Test_option 1 1 0 =
     max 0 (spot Test_option * path_entry (\<lambda>k. 1.5) 1 0 (1 - 1)
            - spot Test_option * Min (insert 1 (path_entry (\<lambda>k. 1.5) 1 0 ` {..<1})))
   \<and> lookback_payoff (\<lambda>k. 1.5) Test_option 1 1 0 = 20"
  using lookback_payoff_floor[of 1 "\<lambda>k. 1.5" Test_option 1 0]
  by (simp add: Test_option_def path_entry_def lessThan_Suc)

text \<open>
  C5, as stated: the lookback payoff of a path is at least 0 and at least the
  PlainVanilla payoff of the same path. The second half fails on the driver's own option
  with a flat path: the final value is 40, the floor is 40, the lookback payoff is 0 and
  the PlainVanilla Call payoff is 40 - 35 = 5.
\<close>

theorem lookback_dominates_counterexample:
  "\<not> plainvanilla_payoff (\<lambda>k. 1) Test_option 1 1 0 \<le> lookback_payoff (\<lambda>k. 1) Test_option 1 1 0"
  by (simp add: lookback_payoff_def plainvanilla_payoff_def Test_option_def)

text \<open>
  C5, amended: the lookback payoff of a path is at least 0, and it is at least the
  PlainVanilla payoff of the same path for a Call whose strike is not below the floor
  (the spot times the minimum of 1 and the stored entries of the path).
\<close>

theorem lookback_payoff_bounds:
  "0 \<le> lookback_payoff paths option numSims numTimesteps i \<and>
   (type option = Call \<and>
    spot option * Min (insert 1 (path_entry paths numSims i ` {..<numTimesteps})) \<le> strike option
    \<longrightarrow> plainvanilla_payoff paths option numSims numTimesteps i
          \<le> lookback_payoff paths option numSims numTimesteps i)"
  by (auto simp: lookback_payoff_eq plainvanilla_payoff_def Let_def mult.commute)

theorem lookback_payoff_bounds_witness:
  "0 \<le> lookback_payoff (\<lambda>k. if k = 0 then 0.8 else 1) Test_option 1 2 0 \<and>
   type Test_option = Call \<and>
   spot Test_option * Min (insert 1 (path_entry (\<lambda>k. if k = 0 then 0.8 else 1) 1 0 ` {..<2}))
     \<le> strike Test_option \<and>
   plainvanilla_payoff (\<lambda>k. if k = 0 then 0.8 else 1) Test_option 1 2 0 = 5 \<and>
   lookback_payoff (\<lambda>k. if k = 0 then 0.8 else 1) Test_option 1 2 0 = 8 \<and>
   plainvanilla_payoff (\<lambda>k. if k = 0 then 0.8 else 1) Test_option 1 2 0
     \<le> lookback_payoff (\<lambda>k. if k = 0 then 0.8 else 1) Test_option 1 2 0"
proof -
  have two: "{..<2::nat} = {0, 1}" by auto
  have pv: "plainvanilla_payoff (\<lambda>k. if k = 0 then 0.8 else 1) Test_option 1 2 0 = 5"
    by (simp add: plainvanilla_payoff_def Test_option_def numeral_2_eq_2)
  have lb: "lookback_payoff (\<lambda>k. if k = 0 then 0.8 else 1) Test_option 1 2 0 = 8"
    by (simp add: lookback_payoff_def Test_option_def numeral_2_eq_2)
  have fl: "spot Test_option * Min (insert 1 (path_entry (\<lambda>k. if k = 0 then 0.8 else 1) 1 0 ` {..<2}))
     \<le> strike Test_option"
    by (simp add: two Test_option_def path_entry_def)
  have ty: "type Test_option = Call" by (simp add: Test_option_def)
  show ?thesis
    using lookback_payoff_bounds[of "\<lambda>k. if k = 0 then 0.8 else 1" Test_option 1 2 0] pv lb fl ty
    by simp
qed

section \<open>The orchestrator\<close>

lemma outcome_throw [simp]: "outcome (throw e option ptrs) = Some e"
  and freed_throw [simp]: "freed (throw e option ptrs) = []"
  and allocated_throw [simp]: "allocated (throw e option ptrs) = ptrs"
  and option_after_throw [simp]: "option_after (throw e option ptrs) = option"
  by (simp_all add: throw_def)

lemma call_None_iff:
  "outcome (PricingEngine_call is_double eng dev option) = None \<longleftrightarrow>
     device_checks is_double eng dev = None \<and>
     cudaMalloc dev d_option = cudaSuccess \<and> cudaMemcpy dev 0 = cudaSuccess \<and>
     cudaMalloc dev d_paths = cudaSuccess \<and> cudaMalloc dev d_rngStates = cudaSuccess \<and>
     cudaMalloc dev d_values = cudaSuccess \<and> cudaMemcpy dev 1 = cudaSuccess \<and>
     cudaMemcpy dev 2 = cudaSuccess \<and> cudaMalloc dev d_values2 = cudaSuccess \<and>
     cudaMemcpy dev 3 = cudaSuccess \<and> cudaMemcpy dev 4 = cudaSuccess \<and>
     cudaMemcpy dev 5 = cudaSuccess"
  unfolding PricingEngine_call_def Let_def
  by (simp add: split_beta split: option.split)


lemma call_success:
  assumes "outcome (PricingEngine_call is_double eng dev option) = None"
  shows "PricingEngine_call is_double eng dev option =
     \<lparr>outcome = None,
      option_after = option
        \<lparr>valuePlainVanilla :=
           finish_value (computeValuePlainVanilla (grid_x eng dev) (m_threadBlockSize eng)
              (device_paths eng dev option) option (m_numSims eng) (numTimesteps_device option))
              (m_numSims eng) option,
         valueAsian :=
           finish_value (computeValueAsian (grid_x eng dev) (m_threadBlockSize eng)
              (device_paths eng dev option) option (m_numSims eng) (numTimesteps_device option))
              (m_numSims eng) option,
         valueKnockout :=
           finish_value (fst (computeValueKnockoutin (grid_x eng dev) (m_threadBlockSize eng)
              (device_paths eng dev option) option (m_numSims eng) (numTimesteps_device option)))
              (m_numSims eng) option,
         valueKnockin :=
           finish_value (snd (computeValueKnockoutin (grid_x eng dev) (m_threadBlockSize eng)
              (device_paths eng dev option) option (m_numSims eng) (numTimesteps_device option)))
              (m_numSims eng) option,
         valueLookback :=
           finish_value (computeValueLookback (grid_x eng dev) (m_threadBlockSize eng)
              (device_paths eng dev option) option (m_numSims eng) (numTimesteps_device option))
              (m_numSims eng) option\<rparr>,
      allocated = [d_option, d_paths, d_rngStates, d_values, d_values2],
      freed = [d_option, d_paths, d_rngStates, d_values, d_values2]\<rparr>"
proof -
  note ok = assms[unfolded call_None_iff]
  show ?thesis
    unfolding PricingEngine_call_def Let_def
    using ok by (simp add: split_beta finish_value_def)
qed

lemma call_freed:
  "freed (PricingEngine_call is_double eng dev option) =
     (if device_checks is_double eng dev = None \<and>
     cudaMalloc dev d_option = cudaSuccess \<and> cudaMemcpy dev 0 = cudaSuccess \<and>
     cudaMalloc dev d_paths = cudaSuccess \<and> cudaMalloc dev d_rngStates = cudaSuccess \<and>
     cudaMalloc dev d_values = cudaSuccess \<and> cudaMemcpy dev 1 = cudaSuccess \<and>
     cudaMemcpy dev 2 = cudaSuccess \<and> cudaMalloc dev d_values2 = cudaSuccess \<and>
     cudaMemcpy dev 3 = cudaSuccess \<and> cudaMemcpy dev 4 = cudaSuccess \<and>
     cudaMemcpy dev 5 = cudaSuccess then [d_option, d_paths, d_rngStates, d_values, d_values2] else [])"
  unfolding PricingEngine_call_def Let_def
  by (simp add: split_beta split: option.split)

lemma call_params:
  "params (option_after (PricingEngine_call is_double eng dev option)) = params option"
  unfolding PricingEngine_call_def Let_def
  by (simp add: params_def split_beta split: option.split)

lemma finish_value_eq:
  "finish_value values numSims option =
     sum_list values / real numSims * exp (- (r option * tenor option))"
  by (simp add: finish_value_def foldl_plus_sum_list)

lemma checks_ok: "device_checks False example_engine example_backend = None"
  by (simp add: device_checks_def check_kernel_def example_engine_def example_backend_def)

lemma example_run_ok:
  "outcome (PricingEngine_call False example_engine example_backend option) = None"
  unfolding call_None_iff by (simp add: checks_ok) (simp add: example_backend_def)

lemma failing_checks_ok: "device_checks False example_engine failing_copy_backend = None"
  by (simp add: device_checks_def check_kernel_def example_engine_def example_backend_def
       failing_copy_backend_def)

lemma failing_run:
  "PricingEngine_call False example_engine failing_copy_backend option =
     throw (runtime_error ''Could not copy partial results to host: '') option
       [d_option, d_paths, d_rngStates, d_values]"
proof -
  have c: "cudaMemcpy failing_copy_backend 0 = cudaSuccess"
    "cudaMemcpy failing_copy_backend (Suc 0) \<noteq> cudaSuccess"
    "cudaMalloc failing_copy_backend p = cudaSuccess" for p
    by (simp_all add: failing_copy_backend_def example_backend_def)
  show ?thesis
    by (simp add: PricingEngine_call_def failing_checks_ok Let_def c)
qed

lemma example_engine_simps:
  "m_numSims example_engine = Suc 0" "m_threadBlockSize example_engine = Suc 0"
  by (simp_all add: example_engine_def)

lemma grid_ok: "grid_x example_engine example_backend = Suc 0"
  by (simp add: grid_x_def example_engine_def example_backend_def halve_grid.simps)

lemma nT_ok: "numTimesteps_device flat_put = Suc 0" "numTimesteps_host flat_put = 1"
  by (simp_all add: numTimesteps_device_def numTimesteps_host_def static_cast_int_def flat_put_def Test_option_def)

lemma stride11: "grid_stride body (Suc 0) (Suc 0) 0 acc = body 0 acc"
  by (simp add: grid_stride.simps)

lemma paths_ok: "device_paths example_engine example_backend flat_put 0 = 1"
  apply (simp add: device_paths_def grid_ok nT_ok generatePaths_def example_engine_simps)
  apply (simp add: generatePaths_thread_def stride11 getPathStep_def)
  apply (simp add: example_backend_def flat_put_def Test_option_def)
  done

lemma block11: "block_reduce (Suc 0) (Suc 0) f = [f 0]"
  by (simp add: block_reduce_def reduce_sum_def reduce_loop.simps)

lemma pv11: "computeValuePlainVanilla (Suc 0) (Suc 0) paths option (Suc 0) (Suc 0)
    = [plainvanilla_payoff paths option (Suc 0) (Suc 0) 0]"
  by (simp add: computeValuePlainVanilla_def block11 stride11)

lemma koki11: "computeValueKnockoutin (Suc 0) (Suc 0) paths option (Suc 0) (Suc 0) =
   ([fst (knockoutin_payoff paths option (Suc 0) (Suc 0) 0)],
    [snd (knockoutin_payoff paths option (Suc 0) (Suc 0) 0)])"
  by (simp add: computeValueKnockoutin_def block11 stride11)

text \<open>
  C8. For every evaluator the host finishing step stores exactly the sum of the
  per-block partial sums, divided by \<open>numSims\<close> and multiplied by \<open>exp(-r * tenor)\<close>: after
  a normal return of \<open>operator()\<close> each of the five result fields is that expression of
  the partial sums its kernel wrote.
\<close>

theorem host_finish:
  assumes "outcome (PricingEngine_call is_double eng dev option) = None"
  shows
  "valuePlainVanilla (option_after (PricingEngine_call is_double eng dev option)) =
     sum_list (computeValuePlainVanilla (grid_x eng dev) (m_threadBlockSize eng)
        (device_paths eng dev option) option (m_numSims eng) (numTimesteps_device option))
       / real (m_numSims eng) * exp (- (r option * tenor option)) \<and>
   valueAsian (option_after (PricingEngine_call is_double eng dev option)) =
     sum_list (computeValueAsian (grid_x eng dev) (m_threadBlockSize eng)
        (device_paths eng dev option) option (m_numSims eng) (numTimesteps_device option))
       / real (m_numSims eng) * exp (- (r option * tenor option)) \<and>
   valueKnockout (option_after (PricingEngine_call is_double eng dev option)) =
     sum_list (fst (computeValueKnockoutin (grid_x eng dev) (m_threadBlockSize eng)
        (device_paths eng dev option) option (m_numSims eng) (numTimesteps_device option)))
       / real (m_numSims eng) * exp (- (r option * tenor option)) \<and>
   valueKnockin (option_after (PricingEngine_call is_double eng dev option)) =
     sum_list (snd (computeValueKnockoutin (grid_x eng dev) (m_threadBlockSize eng)
        (device_paths eng dev option) option (m_numSims eng) (numTimesteps_device option)))
       / real (m_numSims eng) * exp (- (r option * tenor option)) \<and>
   valueLookback (option_after (PricingEngine_call is_double eng dev option)) =
     sum_list (computeValueLookback (grid_x eng dev) (m_threadBlockSize eng)
        (device_paths eng dev option) option (m_numSims eng) (numTimesteps_device option))
       / real (m_numSims eng) * exp (- (r option * tenor option))"
  by (simp add: call_success[OF assms] finish_value_eq)

theorem host_finish_witness:
  "outcome (PricingEngine_call False example_engine example_backend Test_option) = None \<and>
   valuePlainVanilla (option_after (PricingEngine_call False example_engine example_backend Test_option)) =
     sum_list (computeValuePlainVanilla (grid_x example_engine example_backend) (m_threadBlockSize example_engine)
        (device_paths example_engine example_backend Test_option) Test_option (m_numSims example_engine) (numTimesteps_device Test_option))
       / real (m_numSims example_engine) * exp (- (r Test_option * tenor Test_option))"
  using host_finish[OF example_run_ok, of Test_option] example_run_ok[of Test_option] by blast

text \<open>
  C10. \<open>operator()\<close> writes only \<open>valuePlainVanilla\<close>, \<open>valueAsian\<close>, \<open>valueKnockout\<close>,
  \<open>valueKnockin\<close> and \<open>valueLookback\<close>: the contract parameters, the option type, \<open>golden\<close>,
  \<open>valuePlainVanillaCPU\<close> and \<open>valueALK\<close> are as they were, on a normal return and on every
  other exit. \<open>valueALK\<close> is not assigned by the serial pricer either.
\<close>

theorem call_writes_only_values:
  "spot (option_after (PricingEngine_call is_double eng dev option)) = spot option \<and>
   strike (option_after (PricingEngine_call is_double eng dev option)) = strike option \<and>
   r (option_after (PricingEngine_call is_double eng dev option)) = r option \<and>
   sigma (option_after (PricingEngine_call is_double eng dev option)) = sigma option \<and>
   tenor (option_after (PricingEngine_call is_double eng dev option)) = tenor option \<and>
   dt (option_after (PricingEngine_call is_double eng dev option)) = dt option \<and>
   barrier (option_after (PricingEngine_call is_double eng dev option)) = barrier option \<and>
   type (option_after (PricingEngine_call is_double eng dev option)) = type option \<and>
   golden (option_after (PricingEngine_call is_double eng dev option)) = golden option \<and>
   valuePlainVanillaCPU (option_after (PricingEngine_call is_double eng dev option))
     = valuePlainVanillaCPU option \<and>
   valueALK (option_after (PricingEngine_call is_double eng dev option)) = valueALK option \<and>
   valueALK (fst (PricingEngine_index normal eng option g)) = valueALK option"
  using call_params[of is_double eng dev option]
  by (simp add: params_def PricingEngine_index_def Let_def split_beta)

text \<open>
  C6, as stated: on every exit of \<open>operator()\<close>, error exits included, each device buffer
  already allocated is released before the error reaches the caller. It fails when the
  first copy of partial sums fails: four buffers are allocated, the exception is raised
  and \<open>cudaFree\<close> has not been called at all.
\<close>

theorem error_exit_counterexample:
  "outcome (PricingEngine_call False example_engine failing_copy_backend Test_option)
     = Some (runtime_error ''Could not copy partial results to host: '') \<and>
   allocated (PricingEngine_call False example_engine failing_copy_backend Test_option)
     = [d_option, d_paths, d_rngStates, d_values] \<and>
   freed (PricingEngine_call False example_engine failing_copy_backend Test_option) = []"
  by (simp add: failing_run)

text \<open>
  C6, amended: on a normal return all five device buffers have been allocated and all
  five have been released; on an error exit no buffer is released, so the buffers
  allocated before the failure are still allocated when the error reaches the caller.
\<close>

theorem cleanup_on_normal_return_only:
  "(outcome (PricingEngine_call is_double eng dev option) = None \<longrightarrow>
      allocated (PricingEngine_call is_double eng dev option)
        = [d_option, d_paths, d_rngStates, d_values, d_values2] \<and>
      freed (PricingEngine_call is_double eng dev option)
        = [d_option, d_paths, d_rngStates, d_values, d_values2]) \<and>
   (outcome (PricingEngine_call is_double eng dev option) \<noteq> None \<longrightarrow>
      freed (PricingEngine_call is_double eng dev option) = [])"
proof (cases "outcome (PricingEngine_call is_double eng dev option) = None")
  case True
  show ?thesis using True by (simp add: call_success[OF True])
next
  case False
  then have "freed (PricingEngine_call is_double eng dev option) = []"
    unfolding call_freed call_None_iff by (simp only: if_False)
  with False show ?thesis by simp
qed


theorem cleanup_on_normal_return_only_witness:
  "outcome (PricingEngine_call False example_engine example_backend Test_option) = None \<and>
   allocated (PricingEngine_call False example_engine example_backend Test_option)
     = [d_option, d_paths, d_rngStates, d_values, d_values2] \<and>
   freed (PricingEngine_call False example_engine example_backend Test_option)
     = [d_option, d_paths, d_rngStates, d_values, d_values2] \<and>
   outcome (PricingEngine_call False example_engine failing_copy_backend Test_option) \<noteq> None \<and>
   freed (PricingEngine_call False example_engine failing_copy_backend Test_option) = []"
  using cleanup_on_normal_return_only[of False example_engine example_backend Test_option]
    cleanup_on_normal_return_only[of False example_engine failing_copy_backend Test_option]
    example_run_ok[of Test_option]
  by (simp add: failing_run)

text \<open>
  C2. The claim: over one path matrix the knock-out and knock-in values add up to the
  PlainVanilla value, and when the barrier is never breached the knock-out value is the
  PlainVanilla value and the knock-in value is 0. On the driver's option turned into a
  Put, with one flat path that stays at the spot (40, below the barrier 45), the kernels
  and the host finishing step give PlainVanilla 0, knock-out 0 and knock-in
  \<open>35 * exp(-0.01)\<close>: the never-breached path pays its strike into the knock-in sum.
\<close>

theorem knockin_knockout_put:
  "path_entry (\<lambda>k. 1) 1 0 0 * spot (Test_option\<lparr>type := Put\<rparr>)
     \<le> barrier (Test_option\<lparr>type := Put\<rparr>) \<and>
   finish_value (computeValuePlainVanilla 1 1 (\<lambda>k. 1) (Test_option\<lparr>type := Put\<rparr>) 1 1) 1
     (Test_option\<lparr>type := Put\<rparr>) = 0 \<and>
   finish_value (fst (computeValueKnockoutin 1 1 (\<lambda>k. 1) (Test_option\<lparr>type := Put\<rparr>) 1 1)) 1
     (Test_option\<lparr>type := Put\<rparr>) = 0 \<and>
   finish_value (snd (computeValueKnockoutin 1 1 (\<lambda>k. 1) (Test_option\<lparr>type := Put\<rparr>) 1 1)) 1
     (Test_option\<lparr>type := Put\<rparr>) = 35 * exp (- (1 / 100))"
  by (simp add: pv11 koki11 finish_value_def plainvanilla_payoff_def knockoutin_payoff_def
       path_entry_def Test_option_def)

section \<open>The serial pricer against the parallel pass\<close>

lemma PricingEngine_index_type:
  "valuePlainVanillaCPU (fst (PricingEngine_index normal eng (option\<lparr>type := ty\<rparr>) g))
     = valuePlainVanillaCPU (fst (PricingEngine_index normal eng option g))"
  by (simp add: PricingEngine_index_def Let_def split_beta numTimesteps_host_def)

text \<open>
  C3. The claim: for a Call and for a Put the serial pricer applies the PlainVanilla
  payoff \<open>max(0, \<plusminus>(finalValue - strike))\<close> with the sign flipped for a Put, as the parallel
  pass does. The serial pricer never reads the option type
  (\<open>PricingEngine_index_type\<close>): on a Put with spot 40 and strike 35 whose paths stay at
  the spot, the parallel pass stores 0 and the serial pricer stores the Call value 5.
\<close>

theorem serial_prices_put_as_call:
  "valuePlainVanilla
     (option_after (PricingEngine_call False example_engine example_backend flat_put)) = 0 \<and>
   valuePlainVanillaCPU
     (fst (PricingEngine_index (curand_normal example_backend) example_engine flat_put 0)) = 5"
proof -
  have par: "valuePlainVanilla
     (option_after (PricingEngine_call False example_engine example_backend flat_put)) = 0"
    apply (simp add: call_success[OF example_run_ok] grid_ok nT_ok example_engine_simps)
    apply (simp add: pv11 finish_value_def plainvanilla_payoff_def paths_ok)
    apply (simp add: flat_put_def Test_option_def)
    done
  have ser: "valuePlainVanillaCPU
     (fst (PricingEngine_index (curand_normal example_backend) example_engine flat_put 0)) = 5"
    apply (simp add: PricingEngine_index_def nT_ok example_engine_simps Let_def)
    apply (simp add: flat_put_def Test_option_def example_backend_def)
    done
  show ?thesis using par ser by simp
qed

section \<open>Path generation in closed form\<close>

lemma variate_funpow:
  "variate cn (((snd \<circ> cn) ^^ m) st) n = variate cn st (m + n)"
proof -
  have "((snd \<circ> cn) ^^ (n + m)) st = ((snd \<circ> cn) ^^ n) (((snd \<circ> cn) ^^ m) st)"
    by (simp add: funpow_add)
  then show ?thesis by (simp add: variate_def add.commute)
qed

lemma simulate_loop_state:
  "snd (simulate_loop cn d f numSims n out s (paths, st)) = ((snd \<circ> cn) ^^ n) st"
  by (induction n arbitrary: out s paths st)
     (simp_all add: getPathStep_def split_beta Let_def funpow_swap1)

lemma simulate_loop_other:
  "(\<And>u. u < n \<Longrightarrow> k \<noteq> out + u * numSims) \<Longrightarrow>
     fst (simulate_loop cn d f numSims n out s (paths, st)) k = paths k"
proof (induction n arbitrary: out s paths st)
  case 0
  then show ?case by simp
next
  case (Suc n)
  have a: "k \<noteq> out" using Suc.prems[of 0] by simp
  have b: "k \<noteq> out + numSims + u * numSims" if "u < n" for u
    using Suc.prems[of "Suc u"] that by simp
  show ?case
    using Suc.IH[OF b] a by (simp add: getPathStep_def split_beta Let_def)
qed

lemma simulate_loop_entry:
  "0 < numSims \<Longrightarrow> u < n \<Longrightarrow>
     fst (simulate_loop cn d f numSims n out s (paths, st)) (out + u * numSims) =
       s * (\<Prod>v\<le>u. exp (d + f * variate cn st v))"
proof (induction n arbitrary: out s paths st u)
  case 0
  then show ?case by simp
next
  case (Suc n)
  let ?s' = "s * exp (d + f * fst (cn st))"
  let ?st' = "snd (cn st)"
  have step: "simulate_loop cn d f numSims (Suc n) out s (paths, st) =
      simulate_loop cn d f numSims n (out + numSims) ?s' (paths(out := ?s'), ?st')"
    by (simp add: getPathStep_def split_beta Let_def)
  have v0: "variate cn st 0 = fst (cn st)" by (simp add: variate_def)
  show ?case
  proof (cases u)
    case 0
    have "fst (simulate_loop cn d f numSims n (out + numSims) ?s' (paths(out := ?s'), ?st')) out
        = (paths(out := ?s')) out"
      using Suc.prems(1) by (intro simulate_loop_other) simp
    then show ?thesis using 0 by (simp add: step v0 del: simulate_loop.simps)
  next
    case (Suc u')
    have sh: "variate cn ?st' v = variate cn st (Suc v)" for v
      using variate_funpow[of cn 1 st v] by simp
    have "fst (simulate_loop cn d f numSims n (out + numSims) ?s' (paths(out := ?s'), ?st'))
            (out + numSims + u' * numSims)
        = ?s' * (\<Prod>v\<le>u'. exp (d + f * variate cn ?st' v))"
      using Suc.prems Suc by (intro Suc.IH) simp_all
    also have "\<dots> = s * (\<Prod>v\<le>Suc u'. exp (d + f * variate cn st v))"
      by (simp add: sh v0 prod.atMost_Suc_shift mult.assoc del: prod.atMost_Suc)
    finally show ?thesis using Suc by (simp add: step algebra_simps del: simulate_loop.simps prod.atMost_Suc)
  qed
qed

lemma addr_unique:
  fixes i :: nat
  assumes "i < N" "i' < N" "i + t * N = i' + t' * N"
  shows "i = i'"
proof -
  have "(i + t * N) mod N = i" "(i' + t' * N) mod N = i'"
    using assms(1,2) by simp_all
  then show ?thesis using assms(3) by metis
qed


lemma thread_loop_other:
  assumes "\<And>j t. i0 + j * step < numSims \<Longrightarrow> t < T \<Longrightarrow> k \<noteq> i0 + j * step + t * numSims"
  shows "fst (grid_stride (\<lambda>i. simulate_loop cn d f numSims T i 1)
               step numSims i0 (paths, st)) k = paths k"
  using assms
proof (induction "numSims - i0" arbitrary: i0 paths st rule: less_induct)
  case less
  let ?body = "\<lambda>i. simulate_loop cn d f numSims T i 1"
  show ?case
  proof (cases "i0 < numSims \<and> 0 < step")
    case False
    then show ?thesis by (subst grid_stride.simps) auto
  next
    case True
    obtain paths1 st1 where p1: "simulate_loop cn d f numSims T i0 1 (paths, st) = (paths1, st1)"
      by (cases "simulate_loop cn d f numSims T i0 1 (paths, st)")
    have unfold: "grid_stride ?body step numSims i0 (paths, st)
        = grid_stride ?body step numSims (i0 + step) (paths1, st1)"
      using True by (subst grid_stride.simps) (simp add: p1)
    have here: "paths1 k = paths k"
    proof -
      have "k \<noteq> i0 + u * numSims" if "u < T" for u
        using less.prems[of 0 u] True that by simp
      then have "fst (simulate_loop cn d f numSims T i0 1 (paths, st)) k = paths k"
        by (intro simulate_loop_other) simp
      then show ?thesis by (simp add: p1)
    qed
    have rest: "k \<noteq> i0 + step + j * step + t * numSims"
      if "i0 + step + j * step < numSims" "t < T" for j t
      using less.prems[of "Suc j" t] that by (simp add: algebra_simps)
    have dec: "numSims - (i0 + step) < numSims - i0"
      using True by arith
    have "fst (grid_stride ?body step numSims (i0 + step) (paths1, st1)) k = paths1 k"
      by (rule less.hyps[OF dec]) (rule rest)
    then show ?thesis by (simp add: unfold here)
  qed
qed

lemma thread_loop_entry:
  assumes "0 < step" "i0 + j * step < numSims" "t < T"
  shows "fst (grid_stride (\<lambda>i. simulate_loop cn d f numSims T i 1)
               step numSims i0 (paths, st)) (i0 + j * step + t * numSims)
          = (\<Prod>v\<le>t. exp (d + f * variate cn st (j * T + v)))"
  using assms
proof (induction j arbitrary: i0 paths st)
  case 0
  let ?body = "\<lambda>i. simulate_loop cn d f numSims T i 1"
  obtain paths1 st1 where p1: "simulate_loop cn d f numSims T i0 1 (paths, st) = (paths1, st1)"
    by (cases "simulate_loop cn d f numSims T i0 1 (paths, st)")
  have i0: "i0 < numSims" using 0 by simp
  have unfold: "grid_stride ?body step numSims i0 (paths, st)
      = grid_stride ?body step numSims (i0 + step) (paths1, st1)"
    using i0 0 by (subst grid_stride.simps) (simp add: p1)
  have "fst (grid_stride ?body step numSims (i0 + step) (paths1, st1)) (i0 + t * numSims)
      = paths1 (i0 + t * numSims)"
  proof (rule thread_loop_other)
    fix j' t'
    assume a: "i0 + step + j' * step < numSims" "t' < T"
    show "i0 + t * numSims \<noteq> i0 + step + j' * step + t' * numSims"
    proof
      assume "i0 + t * numSims = i0 + step + j' * step + t' * numSims"
      then have "i0 = i0 + step + j' * step"
        using addr_unique[of i0 numSims "i0 + step + j' * step" t t'] i0 a(1) by simp
      then show False using 0 by simp
    qed
  qed
  also have "paths1 (i0 + t * numSims) = 1 * (\<Prod>v\<le>t. exp (d + f * variate cn st v))"
    using simulate_loop_entry[of numSims t T cn d f i0 1 paths st] i0 0 by (simp add: p1)
  finally show ?case by (simp add: unfold)
next
  case (Suc j)
  let ?body = "\<lambda>i. simulate_loop cn d f numSims T i 1"
  obtain paths1 st1 where p1: "simulate_loop cn d f numSims T i0 1 (paths, st) = (paths1, st1)"
    by (cases "simulate_loop cn d f numSims T i0 1 (paths, st)")
  have st1: "st1 = ((snd \<circ> cn) ^^ T) st"
    using simulate_loop_state[of cn d f numSims T i0 1 paths st] by (simp add: p1)
  have i0: "i0 < numSims" using Suc.prems by simp
  have unfold: "grid_stride ?body step numSims i0 (paths, st)
      = grid_stride ?body step numSims (i0 + step) (paths1, st1)"
    using i0 Suc.prems by (subst grid_stride.simps) (simp add: p1)
  have "fst (grid_stride ?body step numSims (i0 + step) (paths1, st1))
          (i0 + step + j * step + t * numSims)
      = (\<Prod>v\<le>t. exp (d + f * variate cn st1 (j * T + v)))"
    using Suc.prems by (intro Suc.IH) (simp_all add: algebra_simps)
  also have "\<dots> = (\<Prod>v\<le>t. exp (d + f * variate cn st (Suc j * T + v)))"
    by (simp add: st1 variate_funpow algebra_simps)
  finally show ?case by (simp add: unfold algebra_simps)
qed


lemma generatePaths_thread_eq:
  "generatePaths_thread cn rngStates option numSims T step tid paths =
     fst (grid_stride
            (\<lambda>i. simulate_loop cn ((r option - 0.5 * sigma option * sigma option) * dt option)
                   (sigma option * sqrt (dt option)) numSims T i 1)
            step numSims tid (paths, rngStates tid))"
  by (simp add: generatePaths_thread_def Let_def)

lemma fold_other:
  "(\<And>x p. x \<in> set xs \<Longrightarrow> g x p k = p k) \<Longrightarrow> fold g xs p k = p (k::nat)"
  by (induction xs arbitrary: p) simp_all

lemma generatePaths_thread_other:
  assumes "x \<noteq> tid" "x < step" "tid < step" "tid + j * step < numSims"
  shows "generatePaths_thread cn rngStates option numSims T step x p (tid + j * step + t * numSims)
           = p (tid + j * step + t * numSims)"
  unfolding generatePaths_thread_eq
proof (rule thread_loop_other)
  fix j' t'
  assume a: "x + j' * step < numSims" "t' < T"
  show "tid + j * step + t * numSims \<noteq> x + j' * step + t' * numSims"
  proof
    assume "tid + j * step + t * numSims = x + j' * step + t' * numSims"
    then have "tid + j * step = x + j' * step"
      using addr_unique[of "tid + j * step" numSims "x + j' * step" t t'] assms(4) a(1) by simp
    then have "(tid + j * step) mod step = (x + j' * step) mod step" by simp
    then show False using assms(1,2,3) by simp
  qed
qed

lemma grid_stride_u32_no_wrap:
  assumes "numSims + step \<le> 2 ^ 32" and "0 < step"
  shows "grid_stride_u32 body step numSims i acc = Some (grid_stride body step numSims i acc)"
proof (induction "numSims - i" arbitrary: i acc rule: less_induct)
  case less
  show ?case
  proof (cases "i < numSims")
    case True
    then have dec: "numSims - (i + step) < numSims - i"
      using assms(2) by arith
    have nowrap: "(i + step) mod 2 ^ 32 = i + step"
      using True assms(1) by simp
    have "grid_stride_u32 body step numSims i acc
        = grid_stride_u32 body step numSims (i + step) (body i acc)"
      using True by (subst grid_stride_u32.simps) (simp only: nowrap if_True)
    also have "\<dots> = Some (grid_stride body step numSims (i + step) (body i acc))"
      by (rule less.hyps[OF dec])
    also have "grid_stride body step numSims (i + step) (body i acc)
        = grid_stride body step numSims i acc"
      using True assms(2) by (subst (2) grid_stride.simps) simp
    finally show ?thesis .
  next
    case False
    then show ?thesis
      by (subst grid_stride_u32.simps, subst grid_stride.simps) simp
  qed
qed

text \<open>
  C7. On a launch with \<open>numSims + step \<le> 2^32\<close>, where \<open>step = gridDim.x * blockDim.x\<close>, the
  unsigned counter of the grid-stride loop does not wrap, and thread \<open>tid\<close> simulates the
  paths \<open>tid, tid + step, tid + 2 * step, ...\<close> below \<open>numSims\<close>. Each path starts from
  \<open>s = 1\<close>, is multiplied at every time step by
  \<open>exp((r - 0.5 * sigma * sigma) * dt + sigma * sqrt(dt) * z)\<close> for the next variate \<open>z\<close> of
  the thread's generator, and \<open>s\<close> is stored at offset \<open>t * numSims + i\<close>. So the entry of
  the thread's \<open>j\<close>-th path at time step \<open>t\<close> is the product of the shocks of the time steps
  up to \<open>t\<close>, drawn from the variates \<open>j * numTimesteps, ..., j * numTimesteps + t\<close> of that
  thread.
\<close>

theorem generatePaths_entry:
  assumes "numSims + gridDim * blockDim \<le> 2 ^ 32"
    and "tid < gridDim * blockDim" and "tid + j * (gridDim * blockDim) < numSims"
    and "t < numTimesteps"
  shows "grid_stride_u32 body (gridDim * blockDim) numSims tid acc
           = Some (grid_stride body (gridDim * blockDim) numSims tid acc) \<and>
         path_entry
           (generatePaths gridDim blockDim cn rngStates option numSims numTimesteps paths)
           numSims (tid + j * (gridDim * blockDim)) t =
         (\<Prod>v\<le>t. exp ((r option - 0.5 * sigma option * sigma option) * dt option
                        + sigma option * sqrt (dt option)
                          * variate cn (rngStates tid) (j * numTimesteps + v)))"
proof -
  let ?step = "gridDim * blockDim"
  let ?k = "tid + j * ?step + t * numSims"
  let ?th = "generatePaths_thread cn rngStates option numSims numTimesteps ?step"
  have pos: "0 < ?step" using assms(2) by (cases "?step") simp_all
  have counter: "grid_stride_u32 body ?step numSims tid acc
      = Some (grid_stride body ?step numSims tid acc)"
    by (rule grid_stride_u32_no_wrap[OF assms(1) pos])
  have split: "[0..<?step] = [0..<tid] @ tid # [Suc tid..<?step]"
    using assms(2) by (metis le_add1 less_imp_add_positive upt_add_eq_append upt_conv_Cons zero_le)
  have after: "fold ?th [Suc tid..<?step] p ?k = p ?k" for p
    by (rule fold_other) (use assms(2,3) in \<open>auto intro!: generatePaths_thread_other\<close>)
  have "generatePaths gridDim blockDim cn rngStates option numSims numTimesteps paths ?k
      = ?th tid (fold ?th [0..<tid] paths) ?k"
    unfolding generatePaths_def by (subst split) (simp add: after)
  also have "\<dots> = (\<Prod>v\<le>t. exp ((r option - 0.5 * sigma option * sigma option) * dt option
                        + sigma option * sqrt (dt option)
                          * variate cn (rngStates tid) (j * numTimesteps + v)))"
    unfolding generatePaths_thread_eq
    by (rule thread_loop_entry[OF pos assms(3) assms(4)])
  finally have entry: "path_entry
           (generatePaths gridDim blockDim cn rngStates option numSims numTimesteps paths)
           numSims (tid + j * (gridDim * blockDim)) t =
         (\<Prod>v\<le>t. exp ((r option - 0.5 * sigma option * sigma option) * dt option
                        + sigma option * sqrt (dt option)
                          * variate cn (rngStates tid) (j * numTimesteps + v)))"
    by (simp add: path_entry_def)
  show ?thesis using counter entry by (rule conjI)
qed

theorem generatePaths_entry_witness:
  "(2::nat) + 1 * 1 \<le> 2 ^ 32 \<and> (0::nat) < 1 * 1 \<and> (0::nat) + 1 * (1 * 1) < 2 \<and> (0::nat) < 1 \<and>
   path_entry
     (generatePaths 1 1 (curand_normal example_backend) (\<lambda>tid. 0) Test_option 2 1 (\<lambda>k. 0))
     2 (0 + 1 * (1 * 1)) 0 =
   (\<Prod>v\<le>0. exp ((r Test_option - 0.5 * sigma Test_option * sigma Test_option) * dt Test_option
                        + sigma Test_option * sqrt (dt Test_option)
                          * variate (curand_normal example_backend) 0 (1 * 1 + v)))"
  using generatePaths_entry[of 2 1 1 0 1 0 1 "\<lambda>i a. a" "()" "curand_normal example_backend"
      "\<lambda>tid. 0" Test_option "\<lambda>k. 0"]
  by simp

section \<open>Knock-out plus knock-in for a Call\<close>

text \<open>
  The sums are linear in the per-path payoffs, through the grid-stride loop, the block
  reduction (for any block size, power of two or not) and the host finishing step. For
  a Call with a non-negative strike every path pays its PlainVanilla payoff into exactly
  one of the two sums, so the knock-out and knock-in values add up to the PlainVanilla
  value.
\<close>

lemma grid_stride_pair:
  "grid_stride (\<lambda>i (a, b). (a + f i, b + g i)) step n i0 (a0, b0) =
     (grid_stride (\<lambda>i a. a + f i) step n i0 a0, grid_stride (\<lambda>i b. b + g i) step n i0 (b0::real))"
proof (induction "n - i0" arbitrary: i0 a0 b0 rule: less_induct)
  case less
  show ?case
  proof (cases "i0 < n \<and> 0 < step")
    case True
    then have dec: "n - (i0 + step) < n - i0" by arith
    show ?thesis
      using True less.hyps[OF dec]
      by (subst grid_stride.simps, subst (2) grid_stride.simps, subst (3) grid_stride.simps) simp
  next
    case False
    then show ?thesis
      by (subst grid_stride.simps, subst (2) grid_stride.simps, subst (3) grid_stride.simps) auto
  qed
qed

lemma grid_stride_add:
  assumes "\<And>i. i < n \<Longrightarrow> h i = f i + g i"
  shows "grid_stride (\<lambda>i c. c + h i) step n i0 (a0 + b0) =
     grid_stride (\<lambda>i a. a + f i) step n i0 a0 + grid_stride (\<lambda>i b. b + g i) step n i0 (b0::real)"
proof (induction "n - i0" arbitrary: i0 a0 b0 rule: less_induct)
  case less
  show ?case
  proof (cases "i0 < n \<and> 0 < step")
    case True
    then have dec: "n - (i0 + step) < n - i0" by arith
    have acc: "a0 + b0 + h i0 = (a0 + f i0) + (b0 + g i0)"
      using assms[of i0] True by simp
    have "grid_stride (\<lambda>i c. c + h i) step n i0 (a0 + b0)
        = grid_stride (\<lambda>i c. c + h i) step n (i0 + step) ((a0 + f i0) + (b0 + g i0))"
      using True by (subst grid_stride.simps) (simp only: acc if_True simp_thms)
    also have "\<dots> = grid_stride (\<lambda>i a. a + f i) step n (i0 + step) (a0 + f i0)
        + grid_stride (\<lambda>i b. b + g i) step n (i0 + step) (b0 + g i0)"
      by (rule less.hyps[OF dec])
    also have "\<dots> = grid_stride (\<lambda>i a. a + f i) step n i0 a0
        + grid_stride (\<lambda>i b. b + g i) step n i0 b0"
      using True by (subst (3) grid_stride.simps, subst (4) grid_stride.simps) simp
    finally show ?thesis .
  next
    case False
    then show ?thesis
      by (subst grid_stride.simps, subst (2) grid_stride.simps, subst (3) grid_stride.simps) auto
  qed
qed

lemma reduce_step_add:
  assumes "2 * s \<le> length zs" "length xs = length zs" "length ys = length zs"
    and "\<And>k. k < length zs \<Longrightarrow> zs ! k = xs ! k + ys ! k" and "k < length zs"
  shows "reduce_step s zs ! k = reduce_step s xs ! k + reduce_step s ys ! k"
  using assms by (simp add: reduce_step_def)

lemma reduce_loop_add:
  assumes "2 * s \<le> length zs" "length xs = length zs" "length ys = length zs"
    and "\<And>k. k < length zs \<Longrightarrow> zs ! k = xs ! k + ys ! k"
  shows "length (reduce_loop s zs) = length zs \<and>
     (\<forall>k < length zs. reduce_loop s zs ! k = reduce_loop s xs ! k + reduce_loop s ys ! k)"
  using assms
proof (induction s arbitrary: xs ys zs rule: less_induct)
  case (less s)
  show ?case
  proof (cases "s > 0")
    case False
    then show ?thesis using less.prems by (simp add: reduce_loop.simps)
  next
    case True
    have step: "reduce_step s zs ! k = reduce_step s xs ! k + reduce_step s ys ! k"
      if "k < length zs" for k
      using less.prems that by (intro reduce_step_add) simp_all
    have "length (reduce_loop (s div 2) (reduce_step s zs)) = length (reduce_step s zs) \<and>
      (\<forall>k < length (reduce_step s zs).
         reduce_loop (s div 2) (reduce_step s zs) ! k
           = reduce_loop (s div 2) (reduce_step s xs) ! k
             + reduce_loop (s div 2) (reduce_step s ys) ! k)"
      using True less.prems step
      by (intro less.IH) (simp_all add: length_reduce_step)
    then show ?thesis
      using True
      by (subst reduce_loop.simps, subst (2) reduce_loop.simps, subst (3) reduce_loop.simps,
          subst (4) reduce_loop.simps)
         (simp add: length_reduce_step)
  qed
qed

lemma reduce_sum_add:
  assumes "0 < n" and "\<And>k. k < n \<Longrightarrow> h k = f k + g k"
  shows "reduce_sum (map h [0..<n]) = reduce_sum (map f [0..<n]) + reduce_sum (map g [0..<n])"
  using reduce_loop_add[of "n div 2" "map h [0..<n]" "map f [0..<n]" "map g [0..<n]"] assms
  by (simp add: reduce_sum_def)

lemma block_reduce_add:
  assumes "0 < blockDim" and "\<And>tid. h tid = f tid + g tid"
  shows "sum_list (block_reduce gridDim blockDim h) =
     sum_list (block_reduce gridDim blockDim f) + sum_list (block_reduce gridDim blockDim g)"
proof -
  have "reduce_sum (map (\<lambda>ltid. h (bid * blockDim + ltid)) [0..<blockDim]) =
      reduce_sum (map (\<lambda>ltid. f (bid * blockDim + ltid)) [0..<blockDim])
      + reduce_sum (map (\<lambda>ltid. g (bid * blockDim + ltid)) [0..<blockDim])" for bid
    using assms by (intro reduce_sum_add) simp_all
  then show ?thesis
    by (simp add: block_reduce_def sum_list_addf)
qed

lemma knockout_plus_knockin_call:
  assumes "type option = Call" and "0 \<le> strike option" and "0 < blockDim"
  shows "finish_value (fst (computeValueKnockoutin gridDim blockDim paths option numSims numTimesteps))
            numSims option
         + finish_value (snd (computeValueKnockoutin gridDim blockDim paths option numSims numTimesteps))
            numSims option
         = finish_value (computeValuePlainVanilla gridDim blockDim paths option numSims numTimesteps)
            numSims option"
proof -
  let ?ko = "\<lambda>i. fst (knockoutin_payoff paths option numSims numTimesteps i)"
  let ?ki = "\<lambda>i. snd (knockoutin_payoff paths option numSims numTimesteps i)"
  let ?pv = "plainvanilla_payoff paths option numSims numTimesteps"
  let ?step = "gridDim * blockDim"
  have path: "?pv i = ?ko i + ?ki i" for i
    by (simp add: knockoutin_payoff_call[OF assms(1,2)])
  have thread: "grid_stride (\<lambda>i c. c + ?pv i) ?step numSims tid 0 =
      grid_stride (\<lambda>i a. a + ?ko i) ?step numSims tid 0
      + grid_stride (\<lambda>i b. b + ?ki i) ?step numSims tid 0" for tid
    using grid_stride_add[of numSims ?pv ?ko ?ki ?step tid 0 0] path by simp
  have "sum_list (computeValuePlainVanilla gridDim blockDim paths option numSims numTimesteps) =
      sum_list (fst (computeValueKnockoutin gridDim blockDim paths option numSims numTimesteps))
      + sum_list (snd (computeValueKnockoutin gridDim blockDim paths option numSims numTimesteps))"
    unfolding computeValuePlainVanilla_def computeValueKnockoutin_def Let_def fst_conv snd_conv
      grid_stride_pair
    by (rule block_reduce_add[OF assms(3)]) (rule thread)
  then show ?thesis
    by (simp add: finish_value_eq add_divide_distrib distrib_right)
qed

section \<open>The serial path in closed form\<close>

text \<open>
  The serial pricer multiplies the spot by the same shocks, one per time step, and pays
  \<open>max(0, St - X)\<close> on every path.
\<close>

lemma serial_path_eq:
  "serial_path normal MuBydT VBySqrtdT n (St, g) =
     (St * (\<Prod>v<n. exp (MuBydT + VBySqrtdT * variate normal g v)), ((snd \<circ> normal) ^^ n) g)"
proof (induction n arbitrary: St g)
  case 0
  then show ?case by simp
next
  case (Suc n)
  have sh: "variate normal (snd (normal g)) v = variate normal g (Suc v)" for v
    using variate_funpow[of normal 1 g v] by simp
  have v0: "variate normal g 0 = fst (normal g)" by (simp add: variate_def)
  have st: "((snd \<circ> normal) ^^ n) (snd (normal g)) = ((snd \<circ> normal) ^^ Suc n) g"
    using funpow_swap1[of "snd \<circ> normal" n g] by simp
  show ?case
    by (simp add: Suc.IH split_beta sh v0 prod.lessThan_Suc_shift st[unfolded comp_def]
        mult.assoc comp_def del: prod.lessThan_Suc funpow.simps)
qed

lemma serial_sims_call_payoff:
  "fst (serial_sims normal MuBydT VBySqrtdT S X numtimeSteps (Suc 0) (sumVanilla, g)) =
     sumVanilla + max 0 (S * (\<Prod>v<numtimeSteps. exp (MuBydT + VBySqrtdT * variate normal g v)) - X)"
  by (simp add: serial_path_eq max_def)

end
